theory Spec2Isabelle
  imports Main "HOL-Library.Sublist"
begin

section \<open>Python strings\<close>

text \<open>
  A Python \<open>str\<close> is modelled as a \<open>string\<close> whose characters are the code points
  below 256. The string methods used by \<open>update.py\<close> are written out for that range.
\<close>

definition isspace :: "char \<Rightarrow> bool" where
  \<comment> \<open>\<open>str.isspace\<close> on one character: TAB, LF, VT, FF, CR, FS, GS, RS, US, SPACE, NEL, NBSP.\<close>
  "isspace c = (c \<in> set [CHR 0x09, CHR 0x0A, CHR 0x0B, CHR 0x0C, CHR 0x0D,
                          CHR 0x1C, CHR 0x1D, CHR 0x1E, CHR 0x1F, CHR 0x20,
                          CHR 0x85, CHR 0xA0])"

definition strip :: "string \<Rightarrow> string" where
  \<comment> \<open>\<open>s.strip()\<close>: whitespace removed at both ends.\<close>
  "strip s = rev (dropWhile isspace (rev (dropWhile isspace s)))"

definition lower_char :: "char \<Rightarrow> char" where
  "lower_char c =
     (let n = (of_char c :: nat)
      in if (65 \<le> n \<and> n \<le> 90) \<or> (192 \<le> n \<and> n \<le> 222 \<and> n \<noteq> 215)
         then char_of (n + 32) else c)"

definition lower :: "string \<Rightarrow> string" where
  \<comment> \<open>\<open>s.lower()\<close>\<close>
  "lower s = map lower_char s"

definition endswith :: "string \<Rightarrow> string \<Rightarrow> bool" where
  \<comment> \<open>\<open>s.endswith(suf)\<close>\<close>
  "endswith s suf =
     (length suf \<le> length s \<and> drop (length s - length suf) s = suf)"

definition is_linebreak :: "char \<Rightarrow> bool" where
  \<comment> \<open>the line boundaries of \<open>str.splitlines\<close> other than CR: LF, VT, FF, FS, GS, RS, NEL.\<close>
  "is_linebreak c = (c \<in> set [CHR 0x0A, CHR 0x0B, CHR 0x0C, CHR 0x1C, CHR 0x1D,
                               CHR 0x1E, CHR 0x85])"

fun splitlines_from :: "string \<Rightarrow> string \<Rightarrow> string list" where
  "splitlines_from cur [] = (if cur = [] then [] else [cur])"
| "splitlines_from cur (c # cs) =
     (if c = CHR 0x0D then
        (case cs of
           [] \<Rightarrow> [cur]
         | d # ds \<Rightarrow> if d = CHR 0x0A then cur # splitlines_from [] ds
                     else cur # splitlines_from [] (d # ds))
      else if is_linebreak c then cur # splitlines_from [] cs
      else splitlines_from (cur @ [c]) cs)"

definition splitlines :: "string \<Rightarrow> string list" where
  \<comment> \<open>\<open>s.splitlines()\<close>: CR LF counts as one boundary, no empty last line.\<close>
  "splitlines s = splitlines_from [] s"

definition truthy :: "string option \<Rightarrow> bool" where
  \<comment> \<open>Python truth value of an \<open>Optional[str]\<close>: \<open>None\<close> and \<open>""\<close> are false.\<close>
  "truthy v = (case v of None \<Rightarrow> False | Some s \<Rightarrow> s \<noteq> [])"

definition fmt :: "string option \<Rightarrow> string" where
  \<comment> \<open>what an f-string field prints for an \<open>Optional[str]\<close>\<close>
  "fmt v = (case v of None \<Rightarrow> ''None'' | Some s \<Rightarrow> s)"

definition str_or :: "string \<Rightarrow> string \<Rightarrow> string" where
  \<comment> \<open>\<open>a or b\<close> on two strings\<close>
  "str_or a b = (if a \<noteq> [] then a else b)"

section \<open>The process and its environment\<close>

text \<open>
  What the body of the \<open>try\<close> in \<open>_run_git_command\<close> can do: return from
  \<open>subprocess.run(command, check=True, ...)\<close> with exit code 0 and the captured
  standard output, or raise \<open>FileNotFoundError\<close>, or raise \<open>CalledProcessError\<close> (a
  non-zero exit) carrying the captured \<open>stderr\<close> and \<open>stdout\<close>, or raise some other
  \<open>Exception\<close> whose \<open>str\<close> is given. A command interrupted from outside
  (\<open>KeyboardInterrupt\<close> while \<open>subprocess.run\<close> waits) is not among these outcomes,
  and \<open>print\<close> is taken to succeed.
\<close>

datatype proc_result =
    Completed string
  | File_Not_Found
  | Called_Process_Error string string
  | Other_Exception string

text \<open>
  The surroundings of one call: the two files probed under \<open>REPO_ROOT\<close>, the value of
  \<open>os.getenv\<close> for the toggle (\<open>None\<close> when unset), and the behaviour of the external
  executable, which may depend on every command run so far (the last entry of the
  list is the command being run).
\<close>

record env =
  git_dir_exists :: bool
  requirements_exists :: bool
  getenv_toggle :: "string option"
  subprocess_run :: "string list list \<Rightarrow> proc_result"

text \<open>
  The state \<open>update.py\<close> changes: its module global \<open>_AUTO_UPDATE_RAN\<close>, the lines
  printed so far, and the commands handed to \<open>subprocess.run\<close> so far.
\<close>

record world =
  AUTO_UPDATE_RAN :: bool
  printed :: "string list"
  invoked :: "string list list"

text \<open>
  An exception in flight, with its \<open>str\<close>. \<open>AttributeError\<close> and \<open>OtherError\<close> are of
  class \<open>Exception\<close>; \<open>NonException\<close> is one that is not (\<open>SystemExit\<close>,
  \<open>KeyboardInterrupt\<close>), which an \<open>except Exception\<close> clause lets pass.
\<close>

datatype exn = AttributeError string | OtherError string | NonException string



section \<open>update.py\<close>

definition UP_TO_DATE :: int where "UP_TO_DATE = 0"
definition AHEAD :: int where "AHEAD = 1"
definition ERROR :: int where "ERROR = - 1"
definition SKIP :: int where "SKIP = 2"

definition log :: "string \<Rightarrow> world \<Rightarrow> world" where
  \<comment> \<open>\<open>_log\<close>: one \<open>print\<close> call\<close>
  "log message w = w\<lparr>printed := printed w @ [''[Yuuka Auto Update] '' @ message]\<rparr>"

definition is_git_repo :: "env \<Rightarrow> bool" where
  \<comment> \<open>\<open>_is_git_repo\<close>\<close>
  "is_git_repo e = git_dir_exists e"

definition git_not_found_message :: string where
  "git_not_found_message =
     ''Git executable not found. Please install Git and make sure it is on PATH.''"

definition result_of :: "proc_result \<Rightarrow> string option \<times> string option" where
  \<comment> \<open>the \<open>return\<close> of each branch of the \<open>try\<close> in \<open>_run_git_command\<close>: (output, error)\<close>
  "result_of r =
     (case r of
        Completed out \<Rightarrow> (Some (strip out), None)
      | File_Not_Found \<Rightarrow> (None, Some git_not_found_message)
      | Called_Process_Error err out \<Rightarrow> (None, Some (str_or (strip err) (strip out)))
      | Other_Exception msg \<Rightarrow> (None, Some msg))"

definition run_git_command ::
  "env \<Rightarrow> string list \<Rightarrow> world \<Rightarrow> (string option \<times> string option) \<times> world" where
  \<comment> \<open>\<open>_run_git_command\<close>\<close>
  "run_git_command e command w =
     (let w' = w\<lparr>invoked := invoked w @ [command]\<rparr>
      in (result_of (subprocess_run e (invoked w')), w'))"

definition upstream_ref :: string where
  \<comment> \<open>the revision name of the upstream branch: an at sign, then \<open>{u}\<close>\<close>
  "upstream_ref = CHR 0x40 # ''{u}''"

definition git_fetch :: "string list" where
  "git_fetch = [''git'', ''fetch'']"

definition git_rev_parse_head :: "string list" where
  "git_rev_parse_head = [''git'', ''rev-parse'', ''HEAD'']"

definition git_rev_parse_upstream :: "string list" where
  "git_rev_parse_upstream = [''git'', ''rev-parse'', upstream_ref]"

definition git_diff :: "string option \<Rightarrow> string option \<Rightarrow> string list" where
  "git_diff local_hash remote_hash =
     [''git'', ''diff'', ''--name-only'', fmt local_hash @ ''..'' @ fmt remote_hash]"

definition git_pull :: "string list" where
  "git_pull = [''git'', ''pull'', ''--ff-only'']"

definition changed_files_of :: "string \<Rightarrow> string list" where
  \<comment> \<open>\<open>[line.strip() for line in s.splitlines() if line.strip()]\<close>\<close>
  "changed_files_of s = map strip (filter (\<lambda>line. strip line \<noteq> []) (splitlines s))"

definition dependencies_changed_in :: "string list \<Rightarrow> bool" where
  \<comment> \<open>\<open>"requirements.txt" in fs or any(name.endswith("plugin.json") for name in fs)\<close>\<close>
  "dependencies_changed_in changed_files =
     (''requirements.txt'' \<in> set changed_files
      \<or> list_ex (\<lambda>name. endswith name ''plugin.json'') changed_files)"

definition none_splitlines_error :: exn where
  \<comment> \<open>what \<open>None.splitlines()\<close> raises\<close>
  "none_splitlines_error =
     AttributeError ([CHR 0x27] @ ''NoneType'' @ [CHR 0x27]
                     @ '' object has no attribute ''
                     @ [CHR 0x27] @ ''splitlines'' @ [CHR 0x27])"

definition check_for_updates :: "env \<Rightarrow> world \<Rightarrow> (exn + int \<times> string \<times> bool) \<times> world" where
  "check_for_updates e w =
     (if \<not> is_git_repo e then
        (Inr (SKIP, ''Git repository not detected; auto-update skipped.'', False), w)
      else
        case run_git_command e git_fetch w of ((_, error), w1) \<Rightarrow>
        if truthy error then
          (Inr (ERROR, ''Failed to fetch from remote: '' @ fmt error, False), w1)
        else
        case run_git_command e git_rev_parse_head w1 of ((local_hash, error), w2) \<Rightarrow>
        if truthy error then
          (Inr (ERROR, ''Cannot determine local HEAD: '' @ fmt error, False), w2)
        else
        case run_git_command e git_rev_parse_upstream w2 of ((remote_hash, error), w3) \<Rightarrow>
        if truthy error then
          (Inr (ERROR,
                ''Cannot determine upstream commit. Is this branch tracking a remote? ''
                @ ''Git error: '' @ fmt error, False), w3)
        else if local_hash = remote_hash then
          (Inr (UP_TO_DATE, ''Repository already up to date.'', False), w3)
        else
        case run_git_command e (git_diff local_hash remote_hash) w3
        of ((changed_files_str, error), w4) \<Rightarrow>
        if truthy error then
          (Inr (AHEAD, ''Update detected (changed files could not be listed).'', True), w4)
        else
        (case changed_files_str of
           None \<Rightarrow> (Inl none_splitlines_error, w4)
         | Some s \<Rightarrow>
             (Inr (AHEAD, ''Update detected on remote branch.'',
                   dependencies_changed_in (changed_files_of s)), w4)))"

definition perform_update :: "env \<Rightarrow> world \<Rightarrow> bool \<times> world" where
  "perform_update e w =
     (let w1 = log (''Attempting to fast-forward repository with ''
                    @ [CHR 0x27] @ ''git pull --ff-only'' @ [CHR 0x27] @ ''.'') w
      in case run_git_command e git_pull w1 of ((output, error), w2) \<Rightarrow>
         if truthy error then
           (False, log (''Failed to apply update automatically: '' @ fmt error) w2)
         else if truthy output then
           (True, log (''Pull output:'' @ [CHR 0x0A] @ fmt output) w2)
         else
           (True, log ''Repository already up to date after pull.'' w2))"

definition disabled_notice :: string where
  "disabled_notice =
     ''Auto-update disabled via YUUKA_COMFYUI_AUTO_UPDATE environment variable.''"

definition env_value :: "env \<Rightarrow> string" where
  \<comment> \<open>\<open>os.getenv("YUUKA_COMFYUI_AUTO_UPDATE", "1").strip().lower()\<close>\<close>
  "env_value e = lower (strip (case getenv_toggle e of None \<Rightarrow> ''1'' | Some v \<Rightarrow> v))"

definition auto_update_if_needed :: "env \<Rightarrow> bool \<Rightarrow> world \<Rightarrow> (exn + bool) \<times> world" where
  "auto_update_if_needed e force w =
     (if AUTO_UPDATE_RAN w \<and> \<not> force then (Inr False, w)
      else
        let w0 = w\<lparr>AUTO_UPDATE_RAN := True\<rparr> in
        if env_value e \<in> set [''0'', ''false'', ''off''] then
          (Inr False, log disabled_notice w0)
        else
          case check_for_updates e w0 of
            (Inl x, w1) \<Rightarrow> (Inl x, w1)
          | (Inr (status, message, dependencies_changed), w1) \<Rightarrow>
              if status = ERROR then (Inr False, log message w1)
              else if status = SKIP then (Inr False, log message w1)
              else if status = UP_TO_DATE then (Inr False, w1)
              else
                let w2 = log message w1 in
                case perform_update e w2 of (ok, w3) \<Rightarrow>
                if \<not> ok then (Inr False, w3)
                else
                  let w4 = log (''Repository updated successfully. ''
                                @ ''Please restart ComfyUI to load the new code.'') w3
                  in
                  if dependencies_changed \<and> requirements_exists e then
                    (Inr True,
                     log (''Detected dependency changes. Run ''
                          @ [CHR 0x27] @ ''pip install -r requirements.txt'' @ [CHR 0x27]
                          @ '' if additional packages are required.'') w4)
                  else (Inr True, w4))"

text \<open>
  A caller that invokes \<open>auto_update_if_needed()\<close> once per entry of the list, each
  time in the surroundings given by that entry, and keeps going after an exception.
\<close>

fun call_repeatedly :: "env list \<Rightarrow> world \<Rightarrow> (exn + bool) list \<times> world" where
  "call_repeatedly [] w = ([], w)"
| "call_repeatedly (e # es) w =
     (case auto_update_if_needed e False w of (r, w') \<Rightarrow>
        (case call_repeatedly es w' of (rs, w'') \<Rightarrow> (r # rs, w'')))"

section \<open>yuuka\_auto\_update.py\<close>











section \<open>The final path segment, as the specification words it\<close>

definition spec_final_segment :: "string \<Rightarrow> string" where
  \<comment> \<open>the part of a path after its last slash (the whole path when it has none)\<close>
  "spec_final_segment path = rev (takeWhile (\<lambda>c. c \<noteq> CHR ''/'') (rev path))"

section \<open>A listing, given by its lines\<close>

definition unlines_lf :: "string list \<Rightarrow> string" where
  \<comment> \<open>the text that has these lines, each ended by a line feed\<close>
  "unlines_lf ls = concat (map (\<lambda>l. l @ [CHR 0x0A]) ls)"

definition boundary_free :: "string \<Rightarrow> bool" where
  \<comment> \<open>a line holds no character that \<open>splitlines\<close> breaks at\<close>
  "boundary_free l = list_all (\<lambda>c. c \<noteq> CHR 0x0D \<and> \<not> is_linebreak c) l"

definition kept_lines :: "string list \<Rightarrow> string list" where
  \<comment> \<open>the comprehension of \<open>check_for_updates\<close>, on lines already split\<close>
  "kept_lines ls = map strip (filter (\<lambda>line. strip line \<noteq> []) ls)"

section \<open>Situations the properties speak of\<close>

definition silent_failure :: "proc_result \<Rightarrow> bool" where
  \<comment> \<open>a non-zero exit whose captured \<open>stderr\<close> and \<open>stdout\<close> are both empty once stripped\<close>
  "silent_failure r =
     (case r of
        Called_Process_Error err out \<Rightarrow> strip err = [] \<and> strip out = []
      | _ \<Rightarrow> False)"

definition resolve_commands :: "string list list" where
  \<comment> \<open>the commands \<open>check_for_updates\<close> runs before it compares the identifiers\<close>
  "resolve_commands = [git_fetch, git_rev_parse_head, git_rev_parse_upstream]"

definition identifiers_resolved ::
  "env \<Rightarrow> world \<Rightarrow> string option \<Rightarrow> string option \<Rightarrow> bool" where
  \<comment> \<open>\<open>check_for_updates\<close>, started in \<open>w\<close>, reaches its comparison with these two
      identifiers: the checkout is detected, and the fetch and both \<open>rev-parse\<close> calls
      give an error value that the code's \<open>if error\<close> takes for false\<close>
  "identifiers_resolved e w local_hash remote_hash =
     (is_git_repo e
      \<and> \<not> truthy (snd (result_of (subprocess_run e (invoked w @ [git_fetch]))))
      \<and> fst (result_of (subprocess_run e (invoked w @ [git_fetch, git_rev_parse_head])))
          = local_hash
      \<and> \<not> truthy (snd (result_of
                        (subprocess_run e (invoked w @ [git_fetch, git_rev_parse_head]))))
      \<and> fst (result_of (subprocess_run e (invoked w @ resolve_commands))) = remote_hash
      \<and> \<not> truthy (snd (result_of (subprocess_run e (invoked w @ resolve_commands)))))"

definition gate_open :: "world \<Rightarrow> bool \<Rightarrow> bool" where
  \<comment> \<open>the first test of \<open>auto_update_if_needed\<close> does not return\<close>
  "gate_open w force = (\<not> AUTO_UPDATE_RAN w \<or> force)"

definition toggle_off :: "string \<Rightarrow> bool" where
  \<comment> \<open>a value of the environment variable that is "0", "false" or "off" once stripped
      and lowercased\<close>
  "toggle_off v = (lower (strip v) \<in> set [''0'', ''false'', ''off''])"

section \<open>Concrete surroundings\<close>

definition scripted :: "(string list \<times> proc_result) list \<Rightarrow> string list list \<Rightarrow> proc_result" where
  \<comment> \<open>an executable that answers each command from a table, whatever ran before\<close>
  "scripted table history =
     (if history = [] then File_Not_Found
      else case map_of table (last history) of
             Some r \<Rightarrow> r
           | None \<Rightarrow> File_Not_Found)"

definition repo_env :: "(string list \<times> proc_result) list \<Rightarrow> env" where
  \<comment> \<open>a checkout with \<open>.git\<close> and \<open>requirements.txt\<close>, the toggle unset\<close>
  "repo_env table =
     \<lparr>git_dir_exists = True, requirements_exists = True, getenv_toggle = None,
      subprocess_run = scripted table\<rparr>"

definition start :: world where
  \<comment> \<open>the module just imported\<close>
  "start = \<lparr>AUTO_UPDATE_RAN = False, printed = [], invoked = []\<rparr>"

definition ahead_table :: "string \<Rightarrow> (string list \<times> proc_result) list" where
  \<comment> \<open>upstream is one commit ahead; the listing prints the given text\<close>
  "ahead_table listing =
     [(git_fetch, Completed []),
      (git_rev_parse_head, Completed (''aaa'' @ [CHR 0x0A])),
      (git_rev_parse_upstream, Completed (''bbb'' @ [CHR 0x0A])),
      (git_diff (Some ''aaa'') (Some ''bbb''), Completed listing),
      (git_pull, Completed ''Fast-forward'')]"







definition same_table :: "(string list \<times> proc_result) list" where
  \<comment> \<open>local and upstream are the same commit\<close>
  "same_table =
     [(git_fetch, Completed []),
      (git_rev_parse_head, Completed (''aaa'' @ [CHR 0x0A])),
      (git_rev_parse_upstream, Completed (''aaa'' @ [CHR 0x0A]))]"

definition unreachable_table :: "(string list \<times> proc_result) list" where
  "unreachable_table =
     [(git_fetch, Called_Process_Error (''network unreachable'' @ [CHR 0x0A]) [])]"

definition unlistable_table :: "(string list \<times> proc_result) list" where
  \<comment> \<open>upstream is ahead and the listing exits non-zero with a message\<close>
  "unlistable_table =
     [(git_fetch, Completed []),
      (git_rev_parse_head, Completed ''aaa''),
      (git_rev_parse_upstream, Completed ''bbb''),
      (git_diff (Some ''aaa'') (Some ''bbb''), Called_Process_Error ''fatal: bad revision'' [])]"

definition silent_table :: "(string list \<times> proc_result) list" where
  \<comment> \<open>every command exits non-zero and prints nothing\<close>
  "silent_table =
     [(git_fetch, Called_Process_Error [] []),
      (git_rev_parse_head, Called_Process_Error [] []),
      (git_rev_parse_upstream, Called_Process_Error [] []),
      (git_pull, Called_Process_Error [] [])]"

definition half_silent_table :: "(string list \<times> proc_result) list" where
  \<comment> \<open>only the local \<open>rev-parse\<close> fails, printing nothing\<close>
  "half_silent_table =
     [(git_fetch, Completed []),
      (git_rev_parse_head, Called_Process_Error [] []),
      (git_rev_parse_upstream, Completed ''bbb''),
      (git_diff None (Some ''bbb''), Completed ''readme.md'')]"

definition silent_listing_table :: "(string list \<times> proc_result) list" where
  \<comment> \<open>upstream is ahead and the listing exits non-zero, printing nothing\<close>
  "silent_listing_table =
     [(git_fetch, Completed []),
      (git_rev_parse_head, Completed ''aaa''),
      (git_rev_parse_upstream, Completed ''bbb''),
      (git_diff (Some ''aaa'') (Some ''bbb''), Called_Process_Error [] [])]"

section \<open>Facts about the commands and the checker\<close>

lemmas command_defs =
  git_fetch_def git_rev_parse_head_def git_rev_parse_upstream_def git_diff_def git_pull_def
  upstream_ref_def resolve_commands_def fmt_def

lemmas string_defs =
  strip_def isspace_def str_or_def truthy_def splitlines_def is_linebreak_def
  changed_files_of_def spec_final_segment_def

lemmas scenario_defs =
  repo_env_def scripted_def start_def is_git_repo_def gate_open_def

lemma run_git_command_eq:
  "run_git_command e c w =
     (result_of (subprocess_run e (invoked w @ [c])), w\<lparr>invoked := invoked w @ [c]\<rparr>)"
  by (simp add: run_git_command_def Let_def)

lemma log_fields [simp]:
  "AUTO_UPDATE_RAN (log m w) = AUTO_UPDATE_RAN w"
  "invoked (log m w) = invoked w"
  "printed (log m w) = printed w @ [''[Yuuka Auto Update] '' @ m]"
  by (simp_all add: log_def)

lemma result_of_cases:
  "result_of (Completed out) = (Some (strip out), None)"
  "result_of File_Not_Found = (None, Some git_not_found_message)"
  "strip err \<noteq> [] \<Longrightarrow> result_of (Called_Process_Error err out) = (None, Some (strip err))"
  "strip err = [] \<Longrightarrow> result_of (Called_Process_Error err out) = (None, Some (strip out))"
  "result_of (Other_Exception msg) = (None, Some msg)"
  by (simp_all add: result_of_def str_or_def)

lemma result_of_silent: "silent_failure r \<Longrightarrow> result_of r = (None, Some [])"
  by (cases r) (simp_all add: silent_failure_def result_of_def str_or_def)

lemma check_for_updates_not_repo:
  "\<not> is_git_repo e \<Longrightarrow>
   check_for_updates e w =
     (Inr (SKIP, ''Git repository not detected; auto-update skipped.'', False), w)"
  by (simp add: check_for_updates_def)

lemma check_for_updates_fetch_error:
  assumes "is_git_repo e"
    and "truthy (snd (result_of (subprocess_run e (invoked w @ [git_fetch]))))"
  shows "check_for_updates e w =
     (Inr (ERROR, ''Failed to fetch from remote: ''
                  @ fmt (snd (result_of (subprocess_run e (invoked w @ [git_fetch])))), False),
      w\<lparr>invoked := invoked w @ [git_fetch]\<rparr>)"
  using assms
  by (simp add: check_for_updates_def run_git_command_eq case_prod_beta)

lemma check_for_updates_fetch_quiet:
  assumes "is_git_repo e"
    and "\<not> truthy (snd (result_of (subprocess_run e (invoked w @ [git_fetch]))))"
  shows "prefix (invoked w @ [git_fetch, git_rev_parse_head])
                (invoked (snd (check_for_updates e w)))"
  using assms
  by (simp add: check_for_updates_def run_git_command_eq case_prod_beta split: option.splits)

lemma check_for_updates_runs_fetch:
  assumes "is_git_repo e"
  shows "prefix (invoked w @ [git_fetch]) (invoked (snd (check_for_updates e w)))"
  using assms
  by (simp add: check_for_updates_def run_git_command_eq case_prod_beta split: option.splits)

lemma check_for_updates_resolved:
  assumes "identifiers_resolved e w l r"
  shows "check_for_updates e w =
     (if l = r then
        (Inr (UP_TO_DATE, ''Repository already up to date.'', False),
         w\<lparr>invoked := invoked w @ resolve_commands\<rparr>)
      else
        (case result_of (subprocess_run e (invoked w @ resolve_commands @ [git_diff l r])) of
           (changed_files_str, error) \<Rightarrow>
             if truthy error then
               (Inr (AHEAD, ''Update detected (changed files could not be listed).'', True),
                w\<lparr>invoked := invoked w @ resolve_commands @ [git_diff l r]\<rparr>)
             else
               (case changed_files_str of
                  None \<Rightarrow> (Inl none_splitlines_error,
                            w\<lparr>invoked := invoked w @ resolve_commands @ [git_diff l r]\<rparr>)
                | Some s \<Rightarrow>
                    (Inr (AHEAD, ''Update detected on remote branch.'',
                          dependencies_changed_in (changed_files_of s)),
                     w\<lparr>invoked := invoked w @ resolve_commands @ [git_diff l r]\<rparr>))))"
  using assms
  by (simp add: identifiers_resolved_def resolve_commands_def check_for_updates_def
        run_git_command_eq case_prod_beta split: option.splits)

lemma check_for_updates_listed:
  assumes "identifiers_resolved e w l r" and "l \<noteq> r"
    and "subprocess_run e (invoked w @ resolve_commands @ [git_diff l r]) = Completed out"
  shows "check_for_updates e w =
     (Inr (AHEAD, ''Update detected on remote branch.'',
           dependencies_changed_in (changed_files_of (strip out))),
      w\<lparr>invoked := invoked w @ resolve_commands @ [git_diff l r]\<rparr>)"
  using assms(2,3)
  by (simp add: check_for_updates_resolved [OF assms(1)] result_of_def truthy_def)

lemma check_for_updates_flag:
  "AUTO_UPDATE_RAN (snd (check_for_updates e w)) = AUTO_UPDATE_RAN w"
  by (simp add: check_for_updates_def run_git_command_eq split: prod.splits option.splits)

lemma check_for_updates_printed:
  "printed (snd (check_for_updates e w)) = printed w"
  by (simp add: check_for_updates_def run_git_command_eq split: prod.splits option.splits)

lemma perform_update_flag:
  "perform_update e w = (ok, w') \<Longrightarrow> AUTO_UPDATE_RAN w' = AUTO_UPDATE_RAN w"
  by (auto simp add: perform_update_def run_git_command_eq Let_def split: prod.splits if_splits)

lemma perform_update_invoked:
  "invoked (snd (perform_update e w)) = invoked w @ [git_pull]"
  by (simp add: perform_update_def run_git_command_eq Let_def case_prod_beta)

lemma perform_update_result:
  "fst (perform_update e w)
     \<longleftrightarrow> \<not> truthy (snd (result_of (subprocess_run e (invoked w @ [git_pull]))))"
  by (simp add: perform_update_def run_git_command_eq Let_def case_prod_beta)

lemma identifiers_resolved_flag [simp]:
  "identifiers_resolved e (w\<lparr>AUTO_UPDATE_RAN := b\<rparr>) l r = identifiers_resolved e w l r"
  by (simp add: identifiers_resolved_def)

lemma toggle_default_on: "\<not> toggle_off ''1''"
  by code_simp

lemma auto_update_sets_flag:
  "AUTO_UPDATE_RAN (snd (auto_update_if_needed e force w))"
proof (cases "AUTO_UPDATE_RAN w \<and> \<not> force")
  case True
  then show ?thesis by (simp add: auto_update_if_needed_def)
next
  case False
  let ?w0 = "w\<lparr>AUTO_UPDATE_RAN := True\<rparr>"
  obtain r w1 where chk: "check_for_updates e ?w0 = (r, w1)"
    by (cases "check_for_updates e ?w0")
  have w1: "AUTO_UPDATE_RAN w1"
    using check_for_updates_flag [of e ?w0] chk by simp
  show ?thesis
    using False chk w1
    by (auto simp add: auto_update_if_needed_def Let_def
             split: sum.splits prod.splits dest: perform_update_flag)
qed

lemma auto_update_open:
  assumes "gate_open w force" and "env_value e \<notin> set [''0'', ''false'', ''off'']"
    and "check_for_updates e (w\<lparr>AUTO_UPDATE_RAN := True\<rparr>) = (Inr (status, message, dep), w1)"
  shows "status = ERROR \<or> status = SKIP \<Longrightarrow>
           auto_update_if_needed e force w = (Inr False, log message w1)"
    and "status = UP_TO_DATE \<Longrightarrow> auto_update_if_needed e force w = (Inr False, w1)"
  using assms
  by (auto simp add: auto_update_if_needed_def gate_open_def Let_def
        ERROR_def SKIP_def UP_TO_DATE_def)

text \<open>
  When the listing exits non-zero and prints nothing, its error value is the empty
  string, the test \<open>if error\<close> fails, and \<open>splitlines\<close> is called on \<open>None\<close>.
\<close>

lemma silent_listing_failure_raises:
  "fst (check_for_updates (repo_env silent_listing_table) start) = Inl none_splitlines_error"
  by (simp add: check_for_updates_def run_git_command_eq silent_listing_table_def scenario_defs
        command_defs result_of_def string_defs)

section \<open>The one-shot gate\<close>

lemma gate_closed:
  "AUTO_UPDATE_RAN w \<Longrightarrow> auto_update_if_needed e False w = (Inr False, w)"
  by (simp add: auto_update_if_needed_def)

lemma call_repeatedly_closed:
  "AUTO_UPDATE_RAN w \<Longrightarrow> call_repeatedly es w = (replicate (length es) (Inr False), w)"
  by (induction es) (simp_all add: gate_closed)

text \<open>
  C1. With \<open>force\<close> false, a call made when the flag \<open>_AUTO_UPDATE_RAN\<close> is set
  returns \<open>False\<close> and leaves the whole state as it was: no command is run and no line
  is printed. The first of a series of calls sets the flag whatever happens in it
  (lemma \<open>auto_update_sets_flag\<close>), so every later call of the series returns \<open>False\<close>, and
  the state after the series is the state after its first call: the commands and the
  log lines of the check and the update occur at most once.
\<close>

theorem one_shot_gate:
  "(AUTO_UPDATE_RAN w \<longrightarrow> auto_update_if_needed e False w = (Inr False, w))
   \<and> call_repeatedly (e # es) w =
       (fst (auto_update_if_needed e False w) # replicate (length es) (Inr False),
        snd (auto_update_if_needed e False w))"
proof -
  obtain r w' where first: "auto_update_if_needed e False w = (r, w')"
    by (cases "auto_update_if_needed e False w")
  have "AUTO_UPDATE_RAN w'"
    using auto_update_sets_flag [of e False w] first by simp
  then have "call_repeatedly es w' = (replicate (length es) (Inr False), w')"
    by (rule call_repeatedly_closed)
  with first gate_closed [of w e] show ?thesis by auto
qed

theorem one_shot_gate_witness:
  "AUTO_UPDATE_RAN (snd (auto_update_if_needed (repo_env (ahead_table ''readme.md'')) False start))
   \<and> auto_update_if_needed (repo_env (ahead_table ''readme.md'')) False
        (snd (auto_update_if_needed (repo_env (ahead_table ''readme.md'')) False start))
       = (Inr False,
          snd (auto_update_if_needed (repo_env (ahead_table ''readme.md'')) False start))
   \<and> call_repeatedly (replicate 3 (repo_env (ahead_table ''readme.md''))) start
       = ([Inr True, Inr False, Inr False],
          snd (auto_update_if_needed (repo_env (ahead_table ''readme.md'')) False start))
   \<and> invoked (snd (call_repeatedly (replicate 3 (repo_env (ahead_table ''readme.md''))) start))
       = resolve_commands @ [git_diff (Some ''aaa'') (Some ''bbb''), git_pull]"
proof -
  let ?e = "repo_env (ahead_table ''readme.md'')"
  have res: "identifiers_resolved ?e (start\<lparr>AUTO_UPDATE_RAN := True\<rparr>) (Some ''aaa'') (Some ''bbb'')"
    by (simp add: identifiers_resolved_def ahead_table_def scenario_defs command_defs
          result_of_def string_defs)
  have chk: "check_for_updates ?e (start\<lparr>AUTO_UPDATE_RAN := True\<rparr>)
     = (Inr (AHEAD, ''Update detected on remote branch.'', False),
        start\<lparr>AUTO_UPDATE_RAN := True,
               invoked := resolve_commands @ [git_diff (Some ''aaa'') (Some ''bbb'')]\<rparr>)"
  proof -
    have ne: "Some ''aaa'' \<noteq> Some ''bbb''" by simp
    have run: "subprocess_run ?e
                 (invoked (start\<lparr>AUTO_UPDATE_RAN := True\<rparr>) @ resolve_commands
                  @ [git_diff (Some ''aaa'') (Some ''bbb'')])
               = Completed ''readme.md''"
      by (simp add: ahead_table_def scenario_defs command_defs)
    show ?thesis
      using check_for_updates_listed [OF res ne run]
      by (simp add: start_def string_defs dependencies_changed_in_def endswith_def)
  qed
  have pull: "fst (perform_update ?e w)" for w
    by (simp add: perform_update_result ahead_table_def scenario_defs command_defs
          result_of_def truthy_def)
  have first: "fst (auto_update_if_needed ?e False start) = Inr True"
    using chk pull
    by (simp add: auto_update_if_needed_def Let_def case_prod_beta env_value_def
          repo_env_def start_def lower_def lower_char_def string_defs
          AHEAD_def ERROR_def SKIP_def UP_TO_DATE_def)
  have cmds: "invoked (snd (auto_update_if_needed ?e False start))
       = resolve_commands @ [git_diff (Some ''aaa'') (Some ''bbb''), git_pull]"
    using chk
    by (simp add: auto_update_if_needed_def Let_def case_prod_beta env_value_def
          repo_env_def start_def lower_def lower_char_def string_defs perform_update_invoked
          AHEAD_def ERROR_def SKIP_def UP_TO_DATE_def)
  have flag: "AUTO_UPDATE_RAN (snd (auto_update_if_needed ?e False start))"
    by (rule auto_update_sets_flag)
  show ?thesis
    using flag first cmds
      one_shot_gate [of "snd (auto_update_if_needed ?e False start)" ?e "[]"]
      one_shot_gate [of start ?e "[?e, ?e]"]
    by (simp add: numeral_3_eq_3)
qed

section \<open>The environment toggle\<close>

text \<open>
  C2. Past the gate, a value of the toggle that is "0", "false" or "off" once stripped
  and lowercased makes \<open>auto_update_if_needed\<close> print the disabled notice and return
  \<open>False\<close>: the flag is set, that one line is added to what was printed, and no
  command is run. With the variable unset, or set to any other value, the flow goes
  on: in a checkout \<open>git fetch\<close> is the next command run, and outside one the skip
  message is the line printed.
\<close>

theorem toggle_disables_flow:
  assumes "gate_open w force"
  shows "(getenv_toggle e = Some v \<and> toggle_off v \<longrightarrow>
            auto_update_if_needed e force w
              = (Inr False,
                 w\<lparr>AUTO_UPDATE_RAN := True,
                   printed := printed w
                     @ [''[Yuuka Auto Update] Auto-update disabled via ''
                        @ ''YUUKA_COMFYUI_AUTO_UPDATE environment variable.'']\<rparr>)
            \<and> invoked (snd (auto_update_if_needed e force w)) = invoked w)
       \<and> (getenv_toggle e = None \<or> (getenv_toggle e = Some v \<and> \<not> toggle_off v) \<longrightarrow>
            (if is_git_repo e
             then prefix (invoked w @ [git_fetch])
                         (invoked (snd (auto_update_if_needed e force w)))
             else auto_update_if_needed e force w
                    = (Inr False,
                       w\<lparr>AUTO_UPDATE_RAN := True,
                         printed := printed w
                           @ [''[Yuuka Auto Update] Git repository not detected; ''
                              @ ''auto-update skipped.'']\<rparr>)))"
proof (intro conjI impI)
  assume off: "getenv_toggle e = Some v \<and> toggle_off v"
  then have "env_value e \<in> set [''0'', ''false'', ''off'']"
    by (simp add: env_value_def toggle_off_def)
  with assms show r: "auto_update_if_needed e force w
              = (Inr False,
                 w\<lparr>AUTO_UPDATE_RAN := True,
                   printed := printed w
                     @ [''[Yuuka Auto Update] Auto-update disabled via ''
                        @ ''YUUKA_COMFYUI_AUTO_UPDATE environment variable.'']\<rparr>)"
    by (auto simp add: auto_update_if_needed_def gate_open_def Let_def log_def
          disabled_notice_def)
  show "invoked (snd (auto_update_if_needed e force w)) = invoked w"
    by (simp add: r)
next
  assume "getenv_toggle e = None \<or> (getenv_toggle e = Some v \<and> \<not> toggle_off v)"
  then have on: "env_value e \<notin> set [''0'', ''false'', ''off'']"
    using toggle_default_on by (auto simp add: env_value_def toggle_off_def)
  let ?w0 = "w\<lparr>AUTO_UPDATE_RAN := True\<rparr>"
  show "if is_git_repo e
        then prefix (invoked w @ [git_fetch])
                    (invoked (snd (auto_update_if_needed e force w)))
        else auto_update_if_needed e force w
               = (Inr False,
                  w\<lparr>AUTO_UPDATE_RAN := True,
                    printed := printed w
                      @ [''[Yuuka Auto Update] Git repository not detected; ''
                         @ ''auto-update skipped.'']\<rparr>)"
  proof (cases "is_git_repo e")
    case False
    with assms on show ?thesis
      by (auto simp add: auto_update_if_needed_def gate_open_def Let_def log_def
            check_for_updates_not_repo SKIP_def ERROR_def)
  next
    case True
    have pre: "prefix (invoked w @ [git_fetch]) (invoked (snd (check_for_updates e ?w0)))"
      using check_for_updates_runs_fetch [OF True, of ?w0] by simp
    obtain c w1 where chk: "check_for_updates e ?w0 = (c, w1)"
      by (cases "check_for_updates e ?w0")
    with pre have p1: "prefix (invoked w @ [git_fetch]) (invoked w1)" by simp
    have p2: "prefix (invoked w @ [git_fetch]) (invoked (snd (perform_update e (log m w1))))" for m
      using p1 by (simp add: perform_update_invoked prefix_prefix)
    have "prefix (invoked w @ [git_fetch]) (invoked (snd (auto_update_if_needed e force w)))"
      using assms on chk p1 p2
      by (auto simp add: auto_update_if_needed_def gate_open_def Let_def case_prod_beta
            split: sum.splits)
    with True show ?thesis by simp
  qed
qed

theorem toggle_disables_flow_witness:
  "gate_open start False
   \<and> toggle_off ''0'' \<and> toggle_off ''False'' \<and> toggle_off ''OFF'' \<and> toggle_off '' Off ''
   \<and> auto_update_if_needed ((repo_env [])\<lparr>getenv_toggle := Some ''OFF''\<rparr>) False start
       = (Inr False,
          \<lparr>AUTO_UPDATE_RAN = True,
           printed = [''[Yuuka Auto Update] Auto-update disabled via ''
                      @ ''YUUKA_COMFYUI_AUTO_UPDATE environment variable.''],
           invoked = []\<rparr>)
   \<and> \<not> toggle_off ''yes''
   \<and> prefix [git_fetch]
        (invoked (snd (auto_update_if_needed ((repo_env [])\<lparr>getenv_toggle := Some ''yes''\<rparr>)
                         False start)))
   \<and> prefix [git_fetch] (invoked (snd (auto_update_if_needed (repo_env []) False start)))
   \<and> auto_update_if_needed ((repo_env [])\<lparr>git_dir_exists := False\<rparr>) False start
       = (Inr False,
          \<lparr>AUTO_UPDATE_RAN = True,
           printed = [''[Yuuka Auto Update] Git repository not detected; ''
                      @ ''auto-update skipped.''],
           invoked = []\<rparr>)"
proof -
  have g: "gate_open start False" by (simp add: gate_open_def start_def)
  have off: "toggle_off ''0''" "toggle_off ''False''" "toggle_off ''OFF''" "toggle_off '' Off ''"
    by code_simp+
  have on: "\<not> toggle_off ''yes''" by code_simp
  show ?thesis
    using g off on
      toggle_disables_flow [OF g, of "(repo_env [])\<lparr>getenv_toggle := Some ''OFF''\<rparr>" "''OFF''"]
      toggle_disables_flow [OF g, of "(repo_env [])\<lparr>getenv_toggle := Some ''yes''\<rparr>" "''yes''"]
      toggle_disables_flow [OF g, of "repo_env []" "[]"]
      toggle_disables_flow [OF g, of "(repo_env [])\<lparr>git_dir_exists := False\<rparr>" "[]"]
    by (simp add: repo_env_def is_git_repo_def start_def)
qed

section \<open>Classifying the changed paths\<close>

lemma endswith_suffix: "endswith s t \<longleftrightarrow> suffix t s"
proof
  assume "endswith s t"
  then have "s = take (length s - length t) s @ t"
    by (metis append_take_drop_id endswith_def)
  then show "suffix t s" by (rule suffixI)
next
  assume "suffix t s"
  then obtain zs where "s = zs @ t" by (rule suffixE)
  then show "endswith s t" by (simp add: endswith_def)
qed

lemma prefix_takeWhile_iff:
  "\<forall>x\<in>set u. P x \<Longrightarrow> prefix u (takeWhile P q) \<longleftrightarrow> prefix u q"
proof (induction q arbitrary: u)
  case Nil
  then show ?case by simp
next
  case (Cons a q)
  show ?case
  proof (cases u)
    case Nil
    then show ?thesis by simp
  next
    case (Cons b u')
    with Cons.prems Cons.IH [of u'] show ?thesis by auto
  qed
qed

lemma suffix_final_segment:
  assumes "CHR ''/'' \<notin> set t"
  shows "suffix t (spec_final_segment path) \<longleftrightarrow> suffix t path"
proof -
  have "\<forall>x\<in>set (rev t). x \<noteq> CHR ''/''" using assms by auto
  then have "prefix (rev t) (takeWhile (\<lambda>c. c \<noteq> CHR ''/'') (rev path))
               \<longleftrightarrow> prefix (rev t) (rev path)"
    by (rule prefix_takeWhile_iff)
  then show ?thesis by (simp add: spec_final_segment_def suffix_to_prefix)
qed

lemma dependencies_changed_in_iff:
  "dependencies_changed_in fs \<longleftrightarrow>
     ''requirements.txt'' \<in> set fs
     \<or> (\<exists>path\<in>set fs. suffix ''plugin.json'' (spec_final_segment path))"
proof -
  have "suffix ''plugin.json'' (spec_final_segment path) \<longleftrightarrow> endswith path ''plugin.json''"
    for path
    by (simp add: suffix_final_segment endswith_suffix)
  then show ?thesis
    by (simp add: dependencies_changed_in_def list_ex_iff)
qed

text \<open>
  How the listing becomes the list of changed paths: white space around the whole
  text does not matter, and a text made of lines ended by line feeds gives its lines,
  each stripped, the blank ones left out.
\<close>

lemma kept_lines_simps [simp]:
  "kept_lines [] = []"
  "kept_lines (l # ls) = (if strip l \<noteq> [] then strip l # kept_lines ls else kept_lines ls)"
  by (simp_all add: kept_lines_def)

lemma changed_files_of_kept: "changed_files_of s = kept_lines (splitlines_from [] s)"
  by (simp add: changed_files_of_def kept_lines_def splitlines_def)

lemma strip_Nil [simp]: "strip [] = []"
  by (simp add: strip_def)

lemma strip_space_Cons: "isspace c \<Longrightarrow> strip (c # l) = strip l"
  by (simp add: strip_def)

lemma strip_space_snoc: "isspace c \<Longrightarrow> strip (l @ [c]) = strip l"
proof (cases "\<forall>x\<in>set l. isspace x")
  case True
  assume c: "isspace c"
  from True have a: "dropWhile isspace l = []"
    by (simp only: dropWhile_eq_Nil_conv)
  from True c have "\<forall>x\<in>set (l @ [c]). isspace x" by simp
  then have b: "dropWhile isspace (l @ [c]) = []"
    by (simp only: dropWhile_eq_Nil_conv)
  show ?thesis unfolding strip_def a b by (rule refl)
next
  case False
  assume c: "isspace c"
  from False obtain x where "x \<in> set l" and "\<not> isspace x" by blast
  then have "dropWhile isspace (l @ [c]) = dropWhile isspace l @ [c]"
    by (rule dropWhile_append1)
  with c show ?thesis by (simp add: strip_def)
qed

lemma boundary_is_space: "c = CHR 0x0D \<or> is_linebreak c \<Longrightarrow> isspace c"
  by (auto simp add: is_linebreak_def isspace_def)

lemma kept_space_acc:
  "isspace c \<Longrightarrow> kept_lines (splitlines_from (c # cur) s) = kept_lines (splitlines_from cur s)"
proof (induction s arbitrary: cur)
  case Nil
  then show ?case by (simp add: strip_space_Cons)
next
  case (Cons d ds)
  from Cons.IH [OF Cons.prems, of "cur @ [d]"] Cons.prems
  show ?case by (simp add: strip_space_Cons split: list.splits)
qed

lemma changed_files_of_space_Cons:
  assumes "isspace c"
  shows "changed_files_of (c # s) = changed_files_of s"
proof -
  have "kept_lines (splitlines_from [] (c # s)) = kept_lines (splitlines_from [] s)"
  proof (cases "c = CHR 0x0D \<or> is_linebreak c")
    case False
    then have "splitlines_from [] (c # s) = splitlines_from [c] s" by simp
    with kept_space_acc [OF assms, of "[]" s] show ?thesis by simp
  next
    case True
    then show ?thesis
      by (cases s) (auto simp add: is_linebreak_def)
  qed
  then show ?thesis by (simp add: changed_files_of_kept)
qed

lemma kept_space_single:
  assumes "isspace c"
  shows "kept_lines (splitlines_from cur [c]) = kept_lines (splitlines_from cur [])"
proof -
  have a: "strip (cur @ [c]) = strip cur" using assms by (rule strip_space_snoc)
  have b: "strip [c] = []" using assms by (simp add: strip_space_Cons)
  show ?thesis
  proof (cases "cur = []")
    case True
    with b show ?thesis by simp
  next
    case False
    with a show ?thesis by simp
  qed
qed

lemma kept_space_snoc:
  "isspace c \<Longrightarrow>
   kept_lines (splitlines_from cur (s @ [c])) = kept_lines (splitlines_from cur s)"
proof (induction cur s rule: splitlines_from.induct)
  case (1 cur)
  then show ?case using kept_space_single [of c cur] by simp
next
  case (2 cur d ds)
  note c = "2.prems"
  show ?case
  proof (cases "d = CHR 0x0D")
    case True
    show ?thesis
    proof (cases ds)
      case Nil
      have "kept_lines (splitlines_from [] [c]) = []"
        using kept_space_single [OF c, of "[]"] by simp
      with True Nil show ?thesis by simp
    next
      case (Cons x xs)
      show ?thesis
      proof (cases "x = CHR 0x0A")
        case x: True
        from "2.IH"(1) [OF True Cons x c] True Cons x show ?thesis by simp
      next
        case x: False
        from "2.IH"(2) [OF True Cons x c] True Cons x show ?thesis by simp
      qed
    qed
  next
    case False
    show ?thesis
    proof (cases "is_linebreak d")
      case True
      from "2.IH"(3) [OF False True c] False True show ?thesis by simp
    next
      case lb: False
      from "2.IH"(4) [OF False lb c] False lb show ?thesis by simp
    qed
  qed
qed

lemma changed_files_of_space_snoc:
  "isspace c \<Longrightarrow> changed_files_of (s @ [c]) = changed_files_of s"
  by (simp add: changed_files_of_kept kept_space_snoc)

lemma changed_files_of_dropWhile:
  "changed_files_of (dropWhile isspace s) = changed_files_of s"
  by (induction s) (simp_all add: changed_files_of_space_Cons)

lemma changed_files_of_drop_end:
  "changed_files_of (rev (dropWhile isspace (rev s))) = changed_files_of s"
proof (induction s rule: rev_induct)
  case Nil
  then show ?case by simp
next
  case (snoc c s)
  then show ?case by (simp add: changed_files_of_space_snoc)
qed

lemma changed_files_of_strip: "changed_files_of (strip s) = changed_files_of s"
  by (simp add: strip_def changed_files_of_drop_end changed_files_of_dropWhile)

lemma splitlines_from_line:
  "boundary_free l \<Longrightarrow>
   splitlines_from cur (l @ CHR 0x0A # rest) = (cur @ l) # splitlines_from [] rest"
proof (induction l arbitrary: cur)
  case Nil
  then show ?case by (simp add: is_linebreak_def)
next
  case (Cons c l)
  then show ?case by (simp add: boundary_free_def)
qed

lemma splitlines_from_unlines:
  "list_all boundary_free ls \<Longrightarrow> splitlines_from [] (unlines_lf ls) = ls"
  by (induction ls) (simp_all add: unlines_lf_def splitlines_from_line)

lemma changed_files_of_listing:
  assumes "list_all boundary_free ls"
  shows "changed_files_of (strip (unlines_lf ls)) = filter (\<lambda>p. p \<noteq> []) (map strip ls)"
proof -
  have "changed_files_of (unlines_lf ls) = kept_lines ls"
    by (simp add: changed_files_of_kept splitlines_from_unlines [OF assms])
  then show ?thesis
    by (simp add: changed_files_of_strip kept_lines_def filter_map comp_def)
qed

text \<open>
  C3. When the identifiers differ and the listing exits with code 0, the result is
  \<open>AHEAD\<close>, and its flag is true exactly when the list of changed paths has the entry
  "requirements.txt" or has a path whose final segment ends with "plugin.json". The
  list of changed paths is the list of the lines of the listing, each stripped of
  white space at both ends, blank lines left out.
\<close>

theorem dependency_changed_iff:
  assumes "identifiers_resolved e w l r" and "l \<noteq> r"
    and "subprocess_run e (invoked w @ resolve_commands @ [git_diff l r]) = Completed out"
  shows "fst (check_for_updates e w) =
     Inr (AHEAD, ''Update detected on remote branch.'',
          ''requirements.txt'' \<in> set (changed_files_of (strip out))
          \<or> (\<exists>path\<in>set (changed_files_of (strip out)).
                suffix ''plugin.json'' (spec_final_segment path)))
   \<and> (list_all boundary_free ls \<and> out = unlines_lf ls \<longrightarrow>
        changed_files_of (strip out) = filter (\<lambda>path. path \<noteq> []) (map strip ls))"
  by (simp add: check_for_updates_listed [OF assms] dependencies_changed_in_iff
        changed_files_of_listing)

theorem dependency_changed_iff_witness:
  "identifiers_resolved
      (repo_env (ahead_table (unlines_lf [''readme.md'', ''subdir/plugin.json''])))
      start (Some ''aaa'') (Some ''bbb'')
   \<and> list_all boundary_free [''readme.md'', ''subdir/plugin.json'']
   \<and> changed_files_of (strip (unlines_lf [''readme.md'', ''subdir/plugin.json'']))
       = [''readme.md'', ''subdir/plugin.json'']
   \<and> fst (check_for_updates
             (repo_env (ahead_table (unlines_lf [''readme.md'', ''subdir/plugin.json''])))
             start)
       = Inr (AHEAD, ''Update detected on remote branch.'', True)
   \<and> fst (check_for_updates
             (repo_env (ahead_table (unlines_lf [''readme.md'', ''requirements.txt''])))
             start)
       = Inr (AHEAD, ''Update detected on remote branch.'', True)
   \<and> fst (check_for_updates
             (repo_env (ahead_table (unlines_lf [''requirements.txt '', [], ''a.py''])))
             start)
       = Inr (AHEAD, ''Update detected on remote branch.'', True)
   \<and> fst (check_for_updates (repo_env (ahead_table (unlines_lf [''readme.md'']))) start)
       = Inr (AHEAD, ''Update detected on remote branch.'', False)
   \<and> fst (check_for_updates
             (repo_env (ahead_table (unlines_lf [''readme.md'', ''docs/requirements.txt''])))
             start)
       = Inr (AHEAD, ''Update detected on remote branch.'', False)
   \<and> changed_files_of (strip (''readme.md'' @ [CHR 0x0D, CHR 0x0A]
                                @ ''requirements.txt'' @ [CHR 0x0D, CHR 0x0A]))
       = [''readme.md'', ''requirements.txt'']
   \<and> fst (check_for_updates
             (repo_env (ahead_table (''readme.md'' @ [CHR 0x0D, CHR 0x0A]
                                     @ ''requirements.txt'' @ [CHR 0x0D, CHR 0x0A])))
             start)
       = Inr (AHEAD, ''Update detected on remote branch.'', True)"
proof -
  have res: "identifiers_resolved (repo_env (ahead_table out)) start (Some ''aaa'') (Some ''bbb'')"
    for out
    by (simp add: identifiers_resolved_def ahead_table_def scenario_defs command_defs
          result_of_def string_defs)
  have ne: "Some ''aaa'' \<noteq> Some ''bbb''" by simp
  have run: "subprocess_run (repo_env (ahead_table out))
               (invoked start @ resolve_commands @ [git_diff (Some ''aaa'') (Some ''bbb'')])
             = Completed out" for out
    by (simp add: ahead_table_def scenario_defs command_defs)
  have bf: "list_all boundary_free [''readme.md'', ''subdir/plugin.json'']"
    "list_all boundary_free [''readme.md'', ''requirements.txt'']"
    "list_all boundary_free [''requirements.txt '', [], ''a.py'']"
    "list_all boundary_free [''readme.md'']"
    "list_all boundary_free [''readme.md'', ''docs/requirements.txt'']"
    by (simp_all add: boundary_free_def is_linebreak_def)
  have st: "strip ''readme.md'' = ''readme.md''"
    "strip ''subdir/plugin.json'' = ''subdir/plugin.json''"
    "strip ''requirements.txt'' = ''requirements.txt''"
    "strip ''requirements.txt '' = ''requirements.txt''"
    "strip ''a.py'' = ''a.py''"
    "strip ''docs/requirements.txt'' = ''docs/requirements.txt''"
    by (simp_all add: strip_def isspace_def)
  have crlf: "changed_files_of (strip (''readme.md'' @ [CHR 0x0D, CHR 0x0A]
                                        @ ''requirements.txt'' @ [CHR 0x0D, CHR 0x0A]))
       = [''readme.md'', ''requirements.txt'']"
    by (simp add: string_defs)
  show ?thesis
    using res bf crlf
      dependency_changed_iff [OF res ne run,
        of "''readme.md'' @ [CHR 0x0D, CHR 0x0A] @ ''requirements.txt'' @ [CHR 0x0D, CHR 0x0A]"
           "[]"]
      dependency_changed_iff [OF res ne run,
        of "unlines_lf [''readme.md'', ''subdir/plugin.json'']"
           "[''readme.md'', ''subdir/plugin.json'']"]
      dependency_changed_iff [OF res ne run,
        of "unlines_lf [''readme.md'', ''requirements.txt'']"
           "[''readme.md'', ''requirements.txt'']"]
      dependency_changed_iff [OF res ne run,
        of "unlines_lf [''requirements.txt '', [], ''a.py'']"
           "[''requirements.txt '', [], ''a.py'']"]
      dependency_changed_iff [OF res ne run,
        of "unlines_lf [''readme.md'']" "[''readme.md'']"]
      dependency_changed_iff [OF res ne run,
        of "unlines_lf [''readme.md'', ''docs/requirements.txt'']"
           "[''readme.md'', ''docs/requirements.txt'']"]
    by (simp add: st spec_final_segment_def suffix_to_prefix)
qed

text \<open>
  C10. The test is made on the whole path: any entry of the list of changed paths
  that ends with the characters "plugin.json" sets the flag, also one whose final
  segment is another name, as "myplugin.json" or "dir/xplugin.json"; and so does any
  line of the listing that ends so once stripped.
\<close>

theorem raw_suffix_test:
  assumes "identifiers_resolved e w l r" and "l \<noteq> r"
    and "subprocess_run e (invoked w @ resolve_commands @ [git_diff l r]) = Completed out"
  shows "(path \<in> set (changed_files_of (strip out)) \<and> suffix ''plugin.json'' path \<longrightarrow>
            fst (check_for_updates e w)
              = Inr (AHEAD, ''Update detected on remote branch.'', True))
       \<and> (list_all boundary_free ls \<and> out = unlines_lf ls
            \<and> line \<in> set ls \<and> suffix ''plugin.json'' (strip line) \<longrightarrow>
            fst (check_for_updates e w)
              = Inr (AHEAD, ''Update detected on remote branch.'', True))"
proof -
  have entry: "fst (check_for_updates e w)
              = Inr (AHEAD, ''Update detected on remote branch.'', True)"
    if "p \<in> set (changed_files_of (strip out))" and "suffix ''plugin.json'' p" for p
  proof -
    have "dependencies_changed_in (changed_files_of (strip out))"
      using that
      by (auto simp add: dependencies_changed_in_def list_ex_iff endswith_suffix)
    then show ?thesis
      by (simp add: check_for_updates_listed [OF assms])
  qed
  have listed: "strip line \<in> set (changed_files_of (strip out))"
    if "list_all boundary_free ls" and "out = unlines_lf ls"
      and "line \<in> set ls" and "suffix ''plugin.json'' (strip line)"
  proof -
    from that(4) have "strip line \<noteq> []" by auto
    with that(1,2,3) show ?thesis
      by (simp add: changed_files_of_listing)
  qed
  show ?thesis
    using entry [of path] entry [of "strip line"] listed by blast
qed

theorem raw_suffix_test_witness:
  "identifiers_resolved
      (repo_env (ahead_table (unlines_lf [''myplugin.json'', ''readme.md''])))
      start (Some ''aaa'') (Some ''bbb'')
   \<and> list_all boundary_free [''myplugin.json'', ''readme.md'']
   \<and> suffix ''plugin.json'' ''myplugin.json''
   \<and> spec_final_segment ''myplugin.json'' \<noteq> ''plugin.json''
   \<and> ''myplugin.json''
        \<in> set (changed_files_of (strip (unlines_lf [''myplugin.json'', ''readme.md''])))
   \<and> fst (check_for_updates
             (repo_env (ahead_table (unlines_lf [''myplugin.json'', ''readme.md''])))
             start)
       = Inr (AHEAD, ''Update detected on remote branch.'', True)
   \<and> suffix ''plugin.json'' ''dir/xplugin.json''
   \<and> spec_final_segment ''dir/xplugin.json'' \<noteq> ''plugin.json''
   \<and> fst (check_for_updates
             (repo_env (ahead_table (unlines_lf [''readme.md'', ''dir/xplugin.json''])))
             start)
       = Inr (AHEAD, ''Update detected on remote branch.'', True)"
proof -
  have res: "identifiers_resolved (repo_env (ahead_table out)) start (Some ''aaa'') (Some ''bbb'')"
    for out
    by (simp add: identifiers_resolved_def ahead_table_def scenario_defs command_defs
          result_of_def string_defs)
  have ne: "Some ''aaa'' \<noteq> Some ''bbb''" by simp
  have run: "subprocess_run (repo_env (ahead_table out))
               (invoked start @ resolve_commands @ [git_diff (Some ''aaa'') (Some ''bbb'')])
             = Completed out" for out
    by (simp add: ahead_table_def scenario_defs command_defs)
  have bf: "list_all boundary_free [''myplugin.json'', ''readme.md'']"
    "list_all boundary_free [''readme.md'', ''dir/xplugin.json'']"
    by (simp_all add: boundary_free_def is_linebreak_def)
  have st: "strip ''myplugin.json'' = ''myplugin.json''"
    "strip ''dir/xplugin.json'' = ''dir/xplugin.json''"
    "strip ''readme.md'' = ''readme.md''"
    by (simp_all add: strip_def isspace_def)
  have s1: "suffix ''plugin.json'' ''myplugin.json''" by (simp add: suffix_to_prefix)
  have s2: "suffix ''plugin.json'' ''dir/xplugin.json''" by (simp add: suffix_to_prefix)
  have m1: "''myplugin.json''
        \<in> set (changed_files_of (strip (unlines_lf [''myplugin.json'', ''readme.md''])))"
    by (simp add: changed_files_of_listing [OF bf(1)] st)
  show ?thesis
    using res bf s1 s2 m1
      raw_suffix_test [OF res ne run,
        of "''myplugin.json''" "unlines_lf [''myplugin.json'', ''readme.md'']" "[]" "[]"]
      raw_suffix_test [OF res ne run,
        of "[]" "unlines_lf [''readme.md'', ''dir/xplugin.json'']"
           "[''readme.md'', ''dir/xplugin.json'']" "''dir/xplugin.json''"]
    by (simp add: st spec_final_segment_def)
qed

section \<open>A failing fetch\<close>

text \<open>
  C4, as the claim words it: the message would start with a small f. It starts with a
  capital one.
\<close>

theorem fetch_failure_lowercase_counterexample:
  "fst (check_for_updates (repo_env unreachable_table) start)
     = Inr (ERROR, ''Failed to fetch from remote: network unreachable'', False)
   \<and> fst (check_for_updates (repo_env unreachable_table) start)
     \<noteq> Inr (ERROR, ''failed to fetch from remote: network unreachable'', False)"
  by (simp add: check_for_updates_def run_git_command_eq unreachable_table_def scenario_defs
        command_defs result_of_def string_defs)

text \<open>
  C4, amended. When the fetch fails with the error text "network unreachable",
  \<open>check_for_updates\<close> returns \<open>ERROR\<close>, the message
  "Failed to fetch from remote: network unreachable" and \<open>False\<close>, having run the fetch
  only; \<open>auto_update_if_needed\<close>, past the gate and the toggle, prints that message and
  returns \<open>False\<close>, and neither \<open>rev-parse\<close> command is run.
\<close>

theorem fetch_failure_reported:
  assumes "is_git_repo e"
    and "snd (result_of (subprocess_run e (invoked w @ [git_fetch])))
           = Some ''network unreachable''"
  shows "check_for_updates e w =
           (Inr (ERROR, ''Failed to fetch from remote: network unreachable'', False),
            w\<lparr>invoked := invoked w @ [git_fetch]\<rparr>)
       \<and> (gate_open w force \<and> env_value e \<notin> set [''0'', ''false'', ''off''] \<longrightarrow>
            auto_update_if_needed e force w =
              (Inr False,
               log ''Failed to fetch from remote: network unreachable''
                   (w\<lparr>AUTO_UPDATE_RAN := True, invoked := invoked w @ [git_fetch]\<rparr>)))"
proof -
  have chk: "check_for_updates e v =
           (Inr (ERROR, ''Failed to fetch from remote: network unreachable'', False),
            v\<lparr>invoked := invoked v @ [git_fetch]\<rparr>)"
    if "invoked v = invoked w" for v
    using assms that
    by (simp add: check_for_updates_fetch_error truthy_def fmt_def)
  let ?w0 = "w\<lparr>AUTO_UPDATE_RAN := True\<rparr>"
  have chk0: "check_for_updates e ?w0 =
           (Inr (ERROR, ''Failed to fetch from remote: network unreachable'', False),
            ?w0\<lparr>invoked := invoked ?w0 @ [git_fetch]\<rparr>)"
    by (rule chk) simp
  have r: "auto_update_if_needed e force w =
     (Inr False, log ''Failed to fetch from remote: network unreachable''
                     (?w0\<lparr>invoked := invoked ?w0 @ [git_fetch]\<rparr>))"
    if g: "gate_open w force" and on: "env_value e \<notin> set [''0'', ''false'', ''off'']"
    by (rule auto_update_open(1) [OF g on chk0]) simp
  show ?thesis
    using chk [of w] r by simp
qed

theorem fetch_failure_reported_witness:
  "is_git_repo (repo_env unreachable_table)
   \<and> snd (result_of (subprocess_run (repo_env unreachable_table) (invoked start @ [git_fetch])))
       = Some ''network unreachable''
   \<and> gate_open start False
   \<and> env_value (repo_env unreachable_table) \<notin> set [''0'', ''false'', ''off'']
   \<and> auto_update_if_needed (repo_env unreachable_table) False start
       = (Inr False,
          \<lparr>AUTO_UPDATE_RAN = True,
           printed = [''[Yuuka Auto Update] Failed to fetch from remote: network unreachable''],
           invoked = [git_fetch]\<rparr>)"
proof -
  have repo: "is_git_repo (repo_env unreachable_table)"
    by (simp add: scenario_defs)
  have err: "snd (result_of (subprocess_run (repo_env unreachable_table)
                               (invoked start @ [git_fetch])))
       = Some ''network unreachable''"
    by (simp add: unreachable_table_def scenario_defs command_defs result_of_def string_defs)
  have g: "gate_open start False" by (simp add: gate_open_def start_def)
  have on: "env_value (repo_env unreachable_table) \<notin> set [''0'', ''false'', ''off'']"
    using toggle_default_on by (simp add: env_value_def toggle_off_def repo_env_def)
  show ?thesis
    using repo err g on fetch_failure_reported [OF repo err, of False]
    by (simp add: start_def log_def)
qed

section \<open>What the command runner returns\<close>

text \<open>
  C5. A command that exits non-zero with nothing on \<open>stderr\<close> and \<open>stdout\<close> gets the
  empty string as its error text, not a description of the failure, and the callers'
  test \<open>if error\<close> takes that value for false.
\<close>

theorem silent_failure_has_empty_error:
  "fst (run_git_command (repo_env [(git_fetch, Called_Process_Error [] [])]) git_fetch start)
     = (None, Some [])
   \<and> \<not> truthy (snd (fst (run_git_command
                             (repo_env [(git_fetch, Called_Process_Error [] [])])
                             git_fetch start)))"
  by (simp add: run_git_command_eq repo_env_def scripted_def start_def result_of_def
        strip_def str_or_def truthy_def)

text \<open>
  C9. A non-zero exit with both captured streams empty once stripped gives the error
  value \<open>""\<close>, which every caller takes for success: after such a fetch
  \<open>check_for_updates\<close> goes on to \<open>rev-parse HEAD\<close>; after such a \<open>rev-parse HEAD\<close> the
  local identifier is \<open>None\<close> and is compared with the upstream one (equal when that
  call failed the same way, and otherwise the listing is asked for \<open>None..\<close> and the
  upstream identifier); and after such a pull \<open>perform_update\<close> returns \<open>True\<close>.
\<close>

theorem silent_failure_taken_for_success:
  "(silent_failure p \<longrightarrow> result_of p = (None, Some []) \<and> \<not> truthy (snd (result_of p)))
   \<and> (is_git_repo e \<and> silent_failure (subprocess_run e (invoked w @ [git_fetch])) \<longrightarrow>
        prefix (invoked w @ [git_fetch, git_rev_parse_head])
               (invoked (snd (check_for_updates e w))))
   \<and> (is_git_repo e
        \<and> \<not> truthy (snd (result_of (subprocess_run e (invoked w @ [git_fetch]))))
        \<and> silent_failure (subprocess_run e (invoked w @ [git_fetch, git_rev_parse_head]))
        \<and> silent_failure (subprocess_run e (invoked w @ resolve_commands)) \<longrightarrow>
        fst (check_for_updates e w)
          = Inr (UP_TO_DATE, ''Repository already up to date.'', False))
   \<and> (is_git_repo e
        \<and> \<not> truthy (snd (result_of (subprocess_run e (invoked w @ [git_fetch]))))
        \<and> silent_failure (subprocess_run e (invoked w @ [git_fetch, git_rev_parse_head]))
        \<and> subprocess_run e (invoked w @ resolve_commands) = Completed h \<longrightarrow>
        prefix (invoked w @ resolve_commands @ [git_diff None (Some (strip h))])
               (invoked (snd (check_for_updates e w))))
   \<and> (silent_failure (subprocess_run e (invoked w @ [git_pull])) \<longrightarrow>
        fst (perform_update e w))"
proof (intro conjI impI)
  assume "silent_failure p"
  then show "result_of p = (None, Some [])" by (rule result_of_silent)
next
  assume "silent_failure p"
  then show "\<not> truthy (snd (result_of p))"
    by (simp add: result_of_silent truthy_def)
next
  assume "is_git_repo e \<and> silent_failure (subprocess_run e (invoked w @ [git_fetch]))"
  then show "prefix (invoked w @ [git_fetch, git_rev_parse_head])
               (invoked (snd (check_for_updates e w)))"
    by (simp add: check_for_updates_fetch_quiet result_of_silent truthy_def)
next
  assume a: "is_git_repo e
        \<and> \<not> truthy (snd (result_of (subprocess_run e (invoked w @ [git_fetch]))))
        \<and> silent_failure (subprocess_run e (invoked w @ [git_fetch, git_rev_parse_head]))
        \<and> silent_failure (subprocess_run e (invoked w @ resolve_commands))"
  then have "identifiers_resolved e w None None"
    by (simp add: identifiers_resolved_def result_of_silent truthy_def)
  then show "fst (check_for_updates e w)
          = Inr (UP_TO_DATE, ''Repository already up to date.'', False)"
    by (simp add: check_for_updates_resolved)
next
  assume a: "is_git_repo e
        \<and> \<not> truthy (snd (result_of (subprocess_run e (invoked w @ [git_fetch]))))
        \<and> silent_failure (subprocess_run e (invoked w @ [git_fetch, git_rev_parse_head]))
        \<and> subprocess_run e (invoked w @ resolve_commands) = Completed h"
  then have "identifiers_resolved e w None (Some (strip h))"
    by (simp add: identifiers_resolved_def result_of_silent truthy_def result_of_cases(1))
  then show "prefix (invoked w @ resolve_commands @ [git_diff None (Some (strip h))])
               (invoked (snd (check_for_updates e w)))"
    by (simp add: check_for_updates_resolved case_prod_beta split: option.splits)
next
  assume "silent_failure (subprocess_run e (invoked w @ [git_pull]))"
  then show "fst (perform_update e w)"
    by (simp add: perform_update_result result_of_silent truthy_def)
qed

theorem silent_failure_taken_for_success_witness:
  "silent_failure (Called_Process_Error [] [])
   \<and> result_of (Called_Process_Error [] []) = (None, Some [])
   \<and> prefix [git_fetch, git_rev_parse_head]
        (invoked (snd (check_for_updates (repo_env silent_table) start)))
   \<and> fst (check_for_updates (repo_env silent_table) start)
       = Inr (UP_TO_DATE, ''Repository already up to date.'', False)
   \<and> prefix (resolve_commands @ [git_diff None (Some ''bbb'')])
        (invoked (snd (check_for_updates (repo_env half_silent_table) start)))
   \<and> fst (perform_update (repo_env silent_table) start)"
proof -
  have s: "silent_failure (Called_Process_Error [] [])"
    by (simp add: silent_failure_def strip_def)
  have r: "is_git_repo (repo_env t)" for t by (simp add: scenario_defs)
  have a: "subprocess_run (repo_env silent_table) (invoked start @ [git_fetch])
             = Called_Process_Error [] []"
    "subprocess_run (repo_env silent_table) (invoked start @ [git_fetch, git_rev_parse_head])
             = Called_Process_Error [] []"
    "subprocess_run (repo_env silent_table) (invoked start @ resolve_commands)
             = Called_Process_Error [] []"
    "subprocess_run (repo_env silent_table) (invoked start @ [git_pull])
             = Called_Process_Error [] []"
    by (simp_all add: silent_table_def scenario_defs command_defs)
  have b: "subprocess_run (repo_env half_silent_table) (invoked start @ [git_fetch])
             = Completed []"
    "subprocess_run (repo_env half_silent_table)
        (invoked start @ [git_fetch, git_rev_parse_head]) = Called_Process_Error [] []"
    "subprocess_run (repo_env half_silent_table) (invoked start @ resolve_commands)
             = Completed ''bbb''"
    by (simp_all add: half_silent_table_def scenario_defs command_defs)
  have t: "\<not> truthy (snd (result_of (Completed [])))"
    "\<not> truthy (snd (result_of (Called_Process_Error [] [])))"
    by (simp_all add: result_of_def string_defs)
  have st: "strip ''bbb'' = ''bbb''" by (simp add: string_defs)
  show ?thesis
    using s r a b t st
      silent_failure_taken_for_success
        [of "Called_Process_Error [] []" "repo_env silent_table" start "[]"]
      silent_failure_taken_for_success
        [of "Called_Process_Error [] []" "repo_env half_silent_table" start "''bbb''"]
    by (simp add: start_def)
qed

section \<open>Equal identifiers\<close>

text \<open>
  C6. When the local and the upstream identifier are equal, \<open>check_for_updates\<close>
  returns \<open>UP_TO_DATE\<close> with the flag false; \<open>auto_update_if_needed\<close>, past the gate
  and the toggle, then returns \<open>False\<close>, prints nothing, and has run the fetch and the
  two \<open>rev-parse\<close> commands only, so no pull.
\<close>

theorem up_to_date_is_silent:
  assumes "identifiers_resolved e w h h"
  shows "check_for_updates e w =
           (Inr (UP_TO_DATE, ''Repository already up to date.'', False),
            w\<lparr>invoked := invoked w @ resolve_commands\<rparr>)
       \<and> (gate_open w force \<and> env_value e \<notin> set [''0'', ''false'', ''off''] \<longrightarrow>
            auto_update_if_needed e force w =
              (Inr False,
               w\<lparr>AUTO_UPDATE_RAN := True, invoked := invoked w @ resolve_commands\<rparr>)
            \<and> printed (snd (auto_update_if_needed e force w)) = printed w
            \<and> git_pull \<notin> set resolve_commands)"
proof -
  have first: "check_for_updates e w =
           (Inr (UP_TO_DATE, ''Repository already up to date.'', False),
            w\<lparr>invoked := invoked w @ resolve_commands\<rparr>)"
    by (simp add: check_for_updates_resolved [OF assms])
  let ?w0 = "w\<lparr>AUTO_UPDATE_RAN := True\<rparr>"
  have "identifiers_resolved e ?w0 h h" using assms by simp
  then have chk: "check_for_updates e ?w0 =
           (Inr (UP_TO_DATE, ''Repository already up to date.'', False),
            ?w0\<lparr>invoked := invoked ?w0 @ resolve_commands\<rparr>)"
    by (simp add: check_for_updates_resolved)
  have r: "auto_update_if_needed e force w =
     (Inr False, ?w0\<lparr>invoked := invoked ?w0 @ resolve_commands\<rparr>)"
    if g: "gate_open w force" and on: "env_value e \<notin> set [''0'', ''false'', ''off'']"
    by (rule auto_update_open(2) [OF g on chk refl])
  have no_pull: "git_pull \<notin> set resolve_commands"
    by (simp add: resolve_commands_def git_pull_def git_fetch_def git_rev_parse_head_def
          git_rev_parse_upstream_def)
  show ?thesis
    using first r no_pull by simp
qed

theorem up_to_date_is_silent_witness:
  "identifiers_resolved (repo_env same_table) start (Some ''aaa'') (Some ''aaa'')
   \<and> gate_open start False
   \<and> env_value (repo_env same_table) \<notin> set [''0'', ''false'', ''off'']
   \<and> check_for_updates (repo_env same_table) start
       = (Inr (UP_TO_DATE, ''Repository already up to date.'', False),
          start\<lparr>invoked := resolve_commands\<rparr>)
   \<and> auto_update_if_needed (repo_env same_table) False start
       = (Inr False, \<lparr>AUTO_UPDATE_RAN = True, printed = [], invoked = resolve_commands\<rparr>)"
proof -
  have res: "identifiers_resolved (repo_env same_table) start (Some ''aaa'') (Some ''aaa'')"
    by (simp add: identifiers_resolved_def same_table_def scenario_defs command_defs
          result_of_def string_defs)
  have g: "gate_open start False" by (simp add: gate_open_def start_def)
  have on: "env_value (repo_env same_table) \<notin> set [''0'', ''false'', ''off'']"
    using toggle_default_on by (simp add: env_value_def toggle_off_def repo_env_def)
  show ?thesis
    using res g on up_to_date_is_silent [OF res, of False]
    by (simp add: start_def)
qed

section \<open>A listing that fails\<close>

text \<open>
  C7, as the claim words it: the message would be in small letters with no full stop.
  The code's message starts with a capital letter and ends with a full stop.
\<close>

theorem unlistable_message_counterexample:
  "fst (check_for_updates (repo_env unlistable_table) start)
     = Inr (AHEAD, ''Update detected (changed files could not be listed).'', True)
   \<and> fst (check_for_updates (repo_env unlistable_table) start)
     \<noteq> Inr (AHEAD, ''update detected (changed files could not be listed)'', True)"
  by (simp add: check_for_updates_def run_git_command_eq unlistable_table_def scenario_defs
        command_defs result_of_def string_defs)

text \<open>
  C7, amended. When the identifiers differ and the listing fails with an error text
  that is not empty, \<open>check_for_updates\<close> returns \<open>AHEAD\<close>, the message
  "Update detected (changed files could not be listed)." and the flag true.
\<close>

theorem unlistable_changes_assume_dependencies:
  assumes "identifiers_resolved e w l r" and "l \<noteq> r"
    and "truthy (snd (result_of
                        (subprocess_run e (invoked w @ resolve_commands @ [git_diff l r]))))"
  shows "check_for_updates e w =
           (Inr (AHEAD, ''Update detected (changed files could not be listed).'', True),
            w\<lparr>invoked := invoked w @ resolve_commands @ [git_diff l r]\<rparr>)"
  using assms(2,3)
  by (simp add: check_for_updates_resolved [OF assms(1)] case_prod_beta)

theorem unlistable_changes_assume_dependencies_witness:
  "identifiers_resolved (repo_env unlistable_table) start (Some ''aaa'') (Some ''bbb'')
   \<and> truthy (snd (result_of (subprocess_run (repo_env unlistable_table)
        (invoked start @ resolve_commands @ [git_diff (Some ''aaa'') (Some ''bbb'')]))))
   \<and> check_for_updates (repo_env unlistable_table) start
       = (Inr (AHEAD, ''Update detected (changed files could not be listed).'', True),
          start\<lparr>invoked := resolve_commands @ [git_diff (Some ''aaa'') (Some ''bbb'')]\<rparr>)"
proof -
  have res: "identifiers_resolved (repo_env unlistable_table) start (Some ''aaa'') (Some ''bbb'')"
    by (simp add: identifiers_resolved_def unlistable_table_def scenario_defs command_defs
          result_of_def string_defs)
  have ne: "Some ''aaa'' \<noteq> Some ''bbb''" by simp
  have err: "truthy (snd (result_of (subprocess_run (repo_env unlistable_table)
        (invoked start @ resolve_commands @ [git_diff (Some ''aaa'') (Some ''bbb'')]))))"
    by (simp add: unlistable_table_def scenario_defs command_defs result_of_def string_defs)
  show ?thesis
    using res err unlistable_changes_assume_dependencies [OF res ne err]
    by (simp add: start_def)
qed

section \<open>The loader\<close>












end
